theory Spec2Isabelle
  imports Main
begin

section \<open>The data model of render3.ts\<close>

text \<open>
  A JavaScript symbol is either taken from the global registry (\<open>Symbol.for(key)\<close>, the
  same symbol for the same key) or created by \<open>Symbol()\<close>, which is different from every
  symbol created before. The second kind carries the tick of the allocation counter at
  which it was created. Property keys and intrinsic tags are strings or symbols.
\<close>

datatype symbol = Registered string | Unique nat

datatype key = Name string | Symbol symbol

text \<open>
  \<open>tag: Component<P> | string | symbol\<close>. A component is a function value; it is named
  here by a number, and the function it stands for is supplied where it is called.
\<close>

datatype tag = Component nat | Intrinsic key

datatype AbortSignal = AbortSignal nat

text \<open>
  \<open>ComponentContext\<close> as the functions of this file read it: the identity of the render
  context object and its optional abort signal. Its methods (\<open>render\<close>, \<open>getContext\<close>,
  \<open>setContext\<close>) are functions over these values; the logger is read by none of the
  functions below.
\<close>

record ComponentContext =
  context_ref :: nat
  abortSignal :: "AbortSignal option"

text \<open>
  The values that travel through props and children. \<open>Node = Literal | RenderNode |
  Element | Node[]\<close>, \<open>RenderNode = RenderElement | string\<close>. An \<open>Element\<close> is the closure
  that \<open>createElement\<close> returns: its fields \<open>fn.tag\<close> and \<open>fn.props\<close> and the rest
  parameter \<open>children\<close> it captures. A \<open>RenderElement\<close> is an object, compared by \<open>===\<close>
  through its identity, the field \<open>oid\<close>; its child stream is the list of the nodes that
  the stream yields until it ends, and its field \<open>abortSignal\<close> is \<open>signal\<close> here. Numbers
  are integers; no function below computes with them.
\<close>

datatype jsval =
    Undefined | Null | Bool bool | Num int | Str string | Sym symbol
  | Arr "jsval list"
  | Elem element
  | Rendered render_element
and element =
  ElementFn (fn_tag: tag) (fn_props: "key \<Rightarrow> jsval option") (fn_children: "jsval list")
and render_element =
  RenderElementImpl (oid: nat) (type: key) (attributes: "key \<Rightarrow> jsval option")
    (renderContext: ComponentContext) (signal: "AbortSignal option")
    (asyncChildNodes: "render_node list")
and render_node = Text string | Object render_element

text \<open>\<open>Renderable = Node | PromiseLike<Node> | AsyncIterable<Node>\<close>; any value can be thrown.\<close>

datatype renderable = Node jsval | PromiseLike jsval | AsyncIterable "jsval list"

datatype exn = Thrown jsval

text \<open>
  Creating an object or a symbol takes the next tick of one allocation counter; a
  computation that may allocate takes the counter and returns it advanced.
\<close>

type_synonym 'a alloc = "nat \<Rightarrow> 'a \<times> nat"

fun map_alloc :: "('a \<Rightarrow> 'b alloc) \<Rightarrow> 'a list \<Rightarrow> 'b list alloc" where
  "map_alloc f [] s = ([], s)"
| "map_alloc f (x # xs) s =
     (case f x s of (y, s1) \<Rightarrow>
        (case map_alloc f xs s1 of (ys, s2) \<Rightarrow> (y # ys, s2)))"

text \<open>\<open>Symbol()\<close>: a symbol that no earlier call has returned.\<close>

definition new_Symbol :: "symbol alloc" where
  "new_Symbol s = (Unique s, Suc s)"

text \<open>JavaScript truthiness, as read by \<open>if (node.attributes[id])\<close>.\<close>

fun truthy :: "jsval \<Rightarrow> bool" where
  "truthy Undefined = False"
| "truthy Null = False"
| "truthy (Bool b) = b"
| "truthy (Num n) = (n \<noteq> 0)"
| "truthy (Str s) = (s \<noteq> [])"
| "truthy v = True"

section \<open>Logging\<close>

datatype LogLevel = Fatal | Error | Warn | Info | Debug | Trace

record Error =
  error_name :: string
  error_message :: string

text \<open>\<open>metadataOrMessage: object | string\<close>; the object is an \<open>Error\<close> or a plain record.\<close>

datatype log_object = ErrorObject Error | PlainObject "(key \<rightharpoonup> jsval)"

text \<open>
  \<open>LogImplementation.log\<close> is abstract: an implementation is a function from the six
  arguments to a change of the sink's state.
\<close>

type_synonym 'sink log_method =
  "LogLevel \<Rightarrow> tag option \<Rightarrow> (key \<rightharpoonup> jsval) option \<Rightarrow> string
     \<Rightarrow> log_object + string \<Rightarrow> string option \<Rightarrow> 'sink \<Rightarrow> 'sink"

definition logException ::
  "'sink log_method \<Rightarrow> tag option \<Rightarrow> (key \<rightharpoonup> jsval) option \<Rightarrow> string
     \<Rightarrow> Error \<Rightarrow> bool \<Rightarrow> 'sink \<Rightarrow> 'sink" where
  "logException log component props renderId error bubbling =
     (if bubbling
      then log Warn component props renderId (Inl (ErrorObject error)) (Some (error_message error))
      else log Error component props renderId (Inl (ErrorObject error)) (Some (error_message error)))"

text \<open>
  \<open>ConsoleLogImplementation.log\<close>: one call of the console method named by the level
  (\<open>error\<close> for \<open>fatal\<close>), with \<open>message ?? metadataOrMessage\<close> and a record of the rest.
\<close>

record console_call =
  console_method :: LogLevel
  console_text :: "log_object + string"
  console_component :: "tag option"
  console_props :: "(key \<rightharpoonup> jsval) option"
  console_renderId :: string
  console_metadata :: "(log_object + string) option"

definition ConsoleLogImplementation_log :: "console_call list log_method" where
  "ConsoleLogImplementation_log level component props renderId metadataOrMessage message console =
     console @
     [\<lparr> console_method = (if level = Fatal then Error else level),
        console_text = (case message of None \<Rightarrow> metadataOrMessage | Some m \<Rightarrow> Inr m),
        console_component = component,
        console_props = props,
        console_renderId = renderId,
        console_metadata =
          (case message of None \<Rightarrow> None
           | Some m \<Rightarrow> if m \<noteq> [] then Some metadataOrMessage else None) \<rparr>]"

section \<open>createElement\<close>

text \<open>
  A props or attributes record is a map from keys to values. Object spread
  \<open>{...a, ...b}\<close> copies the own properties of \<open>a\<close>, then those of \<open>b\<close>, a later value
  replacing an earlier one under the same key: \<open>a ++ b\<close>. \<open>props ?? {}\<close> is the empty
  record when \<open>props\<close> is \<open>null\<close>.
\<close>

definition propsToPass :: "(key \<rightharpoonup> jsval) option \<Rightarrow> jsval list \<Rightarrow> (key \<rightharpoonup> jsval)" where
  "propsToPass props children =
     (case props of None \<Rightarrow> Map.empty | Some p \<Rightarrow> p)
     ++ (if length children = 0 then Map.empty
         else [Name ''children'' \<mapsto> (if length children = 1 then children ! 0 else Arr children)])"

definition createElement :: "tag \<Rightarrow> (key \<rightharpoonup> jsval) option \<Rightarrow> jsval list \<Rightarrow> element" where
  "createElement tag props children = ElementFn tag (propsToPass props children) children"

text \<open>\<open>Array.prototype.flat(Infinity)\<close>: arrays are opened at every depth.\<close>

fun flat :: "jsval list \<Rightarrow> jsval list" where
  "flat [] = []"
| "flat (Arr xs # rest) = flat xs @ flat rest"
| "flat (v # rest) = v # flat rest"

text \<open>
  Modelled from the spec: the class \<open>RenderElementImpl\<close> of render-impl.js is not part of
  the sources. Its constructor takes the type, the attributes, the render context, the
  abort signal and the children (an iterable or an asynchronous iterable of render
  nodes) and gives a new object with these as the fields of the \<open>RenderElement\<close>
  interface; \<open>asyncChildNodes\<close> yields the children given. The children may be produced
  by a generator that runs after the object exists, so the object takes its identity
  first.
\<close>

definition new_RenderElementImpl ::
  "key \<Rightarrow> (key \<rightharpoonup> jsval) \<Rightarrow> ComponentContext \<Rightarrow> AbortSignal option
     \<Rightarrow> render_node list alloc \<Rightarrow> render_element alloc" where
  "new_RenderElementImpl ty attrs ctx sig generator s =
     (case generator (Suc s) of (nodes, s1) \<Rightarrow> (RenderElementImpl s ty attrs ctx sig nodes, s1))"

text \<open>
  A component is called with the props and the context; it returns a renderable or
  throws, and may allocate. \<open>ctx.render\<close> belongs to render-impl.js as well: it is a
  parameter, a function that gives a render element for every node (spec 4.2; errors
  travel through the element's completion, spec 4.6).
\<close>

type_synonym component = "(key \<rightharpoonup> jsval) \<Rightarrow> ComponentContext \<Rightarrow> (exn + renderable) alloc"

type_synonym render_method = "ComponentContext \<Rightarrow> jsval \<Rightarrow> render_element alloc"

text \<open>
  The body of the closure \<open>fn\<close> that \<open>createElement\<close> returns. In the intrinsic branch the
  arguments of \<open>new\<close> are evaluated first, so the children are rendered, in order, before
  the element is created.
\<close>

definition invoke ::
  "(nat \<Rightarrow> component) \<Rightarrow> render_method \<Rightarrow> element \<Rightarrow> ComponentContext
     \<Rightarrow> (exn + renderable) alloc" where
  "invoke call render fn ctx s =
     (case fn_tag fn of
        Component f \<Rightarrow> call f (fn_props fn) ctx s
      | Intrinsic t \<Rightarrow>
          (case map_alloc (render ctx) (flat (fn_children fn)) s of (rendered, s1) \<Rightarrow>
             (case new_RenderElementImpl t (fn_props fn) ctx (abortSignal ctx)
                     (Pair (map Object rendered)) s1 of
                (el, s2) \<Rightarrow> (Inr (Node (Rendered el)), s2))))"

section \<open>replace and replaceSubtree\<close>

text \<open>
  A replacer is a function of one node; the one \<open>replaceSubtree\<close> passes on creates
  elements, so a replacer may allocate. \<open>pure_replacer\<close> is a replacer that does not.
\<close>

type_synonym replacer = "render_node \<Rightarrow> render_node alloc"

definition pure_replacer :: "(render_node \<Rightarrow> render_node) \<Rightarrow> replacer" where
  "pure_replacer g node = Pair (g node)"

definition replace :: "render_element \<Rightarrow> replacer \<Rightarrow> render_element alloc" where
  "replace renderElement replacer =
     new_RenderElementImpl (type renderElement) (attributes renderElement)
       (renderContext renderElement) (signal renderElement)
       (map_alloc replacer (asyncChildNodes renderElement))"

text \<open>\<open>node === head\<close>: a string is never identical to an element; two elements are
  identical when they are the same object.\<close>

fun same_object :: "render_node \<Rightarrow> render_element \<Rightarrow> bool" where
  "same_object (Text s) head = False"
| "same_object (Object e) head = (oid e = oid head)"

fun replaceSubtree :: "render_element \<Rightarrow> render_element list \<Rightarrow> replacer \<Rightarrow> render_element alloc" where
  "replaceSubtree renderElement [] replacer = replace renderElement replacer"
| "replaceSubtree renderElement (head # tail) replacer =
     replace renderElement
       (\<lambda>node. if same_object node head
          then (\<lambda>s. case replaceSubtree head tail replacer s of (e, s1) \<Rightarrow> (Object e, s1))
          else Pair node)"

text \<open>
  The frame condition of \<open>replaceSubtree\<close>, for a replacer \<open>g\<close> without effects: \<open>r'\<close> is
  \<open>r\<close> replaced along the path. At the end of the path the child stream of \<open>r'\<close> is that
  of \<open>r\<close> with \<open>g\<close> applied to every node. Before the end, the two child streams have
  the same length; a child that is not the head of the path is the same node in both,
  and in the place of a child that is the head stands an element that is the head
  replaced along the tail.
\<close>

fun replaced_along ::
  "(render_node \<Rightarrow> render_node) \<Rightarrow> render_element \<Rightarrow> render_element list \<Rightarrow> render_element \<Rightarrow> bool" where
  "replaced_along g r [] r' = (asyncChildNodes r' = map g (asyncChildNodes r))"
| "replaced_along g r (head # tail) r' =
     list_all2 (\<lambda>node node'.
         if same_object node head
         then (case node' of Object e \<Rightarrow> replaced_along g head tail e | Text s \<Rightarrow> False)
         else node' = node)
       (asyncChildNodes r) (asyncChildNodes r')"

section \<open>traverse\<close>

record options =
  yield :: "(render_element \<Rightarrow> bool) option"
  yieldPost :: "(render_element \<Rightarrow> bool) option"
  descend :: "(render_element \<Rightarrow> bool) option"
  path :: "render_element list option"

text \<open>\<open>options.p?.(renderElement)\<close>: an absent predicate gives \<open>undefined\<close>, which is falsy.\<close>

definition optional_call :: "(render_element \<Rightarrow> bool) option \<Rightarrow> render_element \<Rightarrow> bool" where
  "optional_call p renderElement = (case p of None \<Rightarrow> False | Some f \<Rightarrow> f renderElement)"

text \<open>\<open>options.path ?? []\<close>\<close>

definition path_or_empty :: "options \<Rightarrow> render_element list" where
  "path_or_empty opts = (case path opts of None \<Rightarrow> [] | Some p \<Rightarrow> p)"

function traverse :: "render_element \<Rightarrow> options \<Rightarrow> (render_element \<times> render_element list) list" where
  "traverse renderElement opts =
     (if optional_call (yield opts) renderElement
      then [(renderElement, path_or_empty opts)] else [])
     @ (if optional_call (descend opts) renderElement
        then concat (map (\<lambda>child. case child of
                 Object c \<Rightarrow> traverse c (opts\<lparr>path := Some (path_or_empty opts @ [renderElement])\<rparr>)
               | Text s \<Rightarrow> []) (asyncChildNodes renderElement))
        else [])
     @ (if optional_call (yieldPost opts) renderElement
        then [(renderElement, path_or_empty opts)] else [])"
  by pat_completeness auto
termination
proof (relation "measure (\<lambda>(r, opts). size r)", goal_cases)
  case 1
  show ?case by simp
next
  case (2 renderElement opts child c)
  then have "size (Object c) \<le> size_list size (asyncChildNodes renderElement)"
    by (simp add: size_list_estimation')
  then have "size c < size renderElement"
    by (cases renderElement) simp
  then show ?case by simp
qed

declare traverse.simps [simp del]

section \<open>fork\<close>

text \<open>
  \<open>fork\<close> creates the symbol \<open>forkedSymbol\<close>, and every call of \<open>createNode\<close> creates an
  identifier \<open>id\<close> of its own. \<open>append(node)\<close> and \<open>close()\<close> are the elements that carry
  the identifier as a key of their props, with the value \<open>true\<close> or \<open>false\<close>.
\<close>

definition fork_append :: "symbol \<Rightarrow> symbol \<Rightarrow> jsval \<Rightarrow> element" where
  "fork_append forkedSymbol fork_id node =
     createElement (Intrinsic (Symbol forkedSymbol)) (Some [Symbol fork_id \<mapsto> Bool True]) [node]"

definition fork_close :: "symbol \<Rightarrow> symbol \<Rightarrow> element" where
  "fork_close forkedSymbol fork_id =
     createElement (Intrinsic (Symbol forkedSymbol)) (Some [Symbol fork_id \<mapsto> Bool False]) []"

text \<open>
  The generator of a forked node, run over the child stream of the mixed element:
  a node that is an object of type \<open>forkedSymbol\<close> with \<open>id in node.attributes\<close> either
  hands over its own children (\<open>yield*\<close>) or, when the value under \<open>id\<close> is falsy, ends
  the stream (\<open>break\<close>); every other node is passed over.
\<close>

fun forked_stream :: "symbol \<Rightarrow> symbol \<Rightarrow> render_node list \<Rightarrow> render_node list" where
  "forked_stream forkedSymbol fork_id [] = []"
| "forked_stream forkedSymbol fork_id (Text s # rest) = forked_stream forkedSymbol fork_id rest"
| "forked_stream forkedSymbol fork_id (Object node # rest) =
     (if type node = Symbol forkedSymbol \<and> attributes node (Symbol fork_id) \<noteq> None
      then (if truthy (the (attributes node (Symbol fork_id)))
            then asyncChildNodes node @ forked_stream forkedSymbol fork_id rest
            else [])
      else forked_stream forkedSymbol fork_id rest)"

text \<open>The loop of the main stream: objects of type \<open>forkedSymbol\<close> are skipped.\<close>

fun main_stream :: "symbol \<Rightarrow> render_node list \<Rightarrow> render_node list" where
  "main_stream forkedSymbol [] = []"
| "main_stream forkedSymbol (Text s # rest) = Text s # main_stream forkedSymbol rest"
| "main_stream forkedSymbol (Object node # rest) =
     (if type node = Symbol forkedSymbol then main_stream forkedSymbol rest
      else Object node # main_stream forkedSymbol rest)"

text \<open>
  \<open>createNode\<close>: a new identifier, then the forked element over the stream of the mixed
  element. That element is known to the generator only through a promise, resolved
  with what \<open>context.render\<close> returns; its child stream is the parameter
  \<open>mixedChildNodes\<close> here.
\<close>

record fork_handle =
  handle_node :: render_element
  handle_append :: "jsval \<Rightarrow> element"
  handle_close :: element

definition createNode ::
  "symbol \<Rightarrow> ComponentContext \<Rightarrow> render_node list \<Rightarrow> fork_handle alloc" where
  "createNode forkedSymbol context mixedChildNodes s =
     (case new_Symbol s of (fork_id, s1) \<Rightarrow>
        (case new_RenderElementImpl (Symbol forkedSymbol) [Symbol forkedSymbol \<mapsto> Sym fork_id]
                context (abortSignal context)
                (Pair (forked_stream forkedSymbol fork_id mixedChildNodes)) s1 of
           (node, s2) \<Rightarrow>
             (\<lparr> handle_node = node,
                handle_append = fork_append forkedSymbol fork_id,
                handle_close = fork_close forkedSymbol fork_id \<rparr>, s2)))"

text \<open>
  \<open>fork\<close>: a new symbol, and the generator over the stream of the mixed element, the
  loop of the main stream. The parameter \<open>render_forkStream\<close> stands for
  \<open>context.render(forkStream(createNode))\<close>, the rendering of the caller's stream under
  the new symbol.
\<close>

definition fork :: "(symbol \<Rightarrow> render_element alloc) \<Rightarrow> render_node list alloc" where
  "fork render_forkStream s =
     (case new_Symbol s of (forkedSymbol, s1) \<Rightarrow>
        (case render_forkStream forkedSymbol s1 of (mixedRenderElement, s2) \<Rightarrow>
           (main_stream forkedSymbol (asyncChildNodes mixedRenderElement), s2)))"

text \<open>The vocabulary of the fork's stream: what a node of the mixed stream is to a fork.\<close>

fun tagged :: "symbol \<Rightarrow> render_node \<Rightarrow> bool" where
  "tagged forkedSymbol (Text s) = False"
| "tagged forkedSymbol (Object node) = (type node = Symbol forkedSymbol)"

fun appended_to :: "symbol \<Rightarrow> symbol \<Rightarrow> render_node \<Rightarrow> bool" where
  "appended_to forkedSymbol fork_id (Text s) = False"
| "appended_to forkedSymbol fork_id (Object node) =
     (type node = Symbol forkedSymbol \<and>
      (case attributes node (Symbol fork_id) of None \<Rightarrow> False | Some v \<Rightarrow> truthy v))"

fun closes :: "symbol \<Rightarrow> symbol \<Rightarrow> render_node \<Rightarrow> bool" where
  "closes forkedSymbol fork_id (Text s) = False"
| "closes forkedSymbol fork_id (Object node) =
     (type node = Symbol forkedSymbol \<and>
      (case attributes node (Symbol fork_id) of None \<Rightarrow> False | Some v \<Rightarrow> \<not> truthy v))"

fun payload :: "render_node \<Rightarrow> render_node list" where
  "payload (Text s) = []"
| "payload (Object node) = asyncChildNodes node"

section \<open>Render contexts\<close>

text \<open>
  \<open>Context<T>\<close>: the default value and the symbol of the key. \<open>createContext\<close> makes a new
  symbol for every key. The \<open>Provider\<close> of a key is a component that calls \<open>setContext\<close>
  and \<open>attach\<close> of the context it is given; it is not part of the record here.
\<close>

record Context =
  context_default :: jsval
  context_symbol :: symbol

definition createContext :: "jsval \<Rightarrow> Context alloc" where
  "createContext defaultValue s =
     (case new_Symbol s of (key_symbol, s1) \<Rightarrow>
        (\<lparr> context_default = defaultValue, context_symbol = key_symbol \<rparr>, s1))"

text \<open>
  Modelled from the spec: the class \<open>RenderContextImpl\<close> of render-impl.js is not part of
  the sources. By section 3 of the specification a render context is an immutable
  record of bindings from context keys to values; \<open>setContext(key, value)\<close> returns a new
  context with one binding overridden and never affects the context it was called on;
  \<open>getContext(key)\<close> gives the nearest binding of the key or the key's default. The
  context objects live in a store, a context is the address of its bindings, and
  \<open>createRenderContext\<close> is \<open>new RenderContextImpl({})\<close>.
\<close>

type_synonym context_store = "(symbol \<rightharpoonup> jsval) list"

text \<open>Modelled from the spec: the bindings of the context at an address of the store
  (\<open>RenderContextImpl\<close> is missing); no bindings where no context is.\<close>

definition bindings_of :: "context_store \<Rightarrow> nat \<Rightarrow> (symbol \<rightharpoonup> jsval)" where
  "bindings_of store c = (if c < length store then store ! c else Map.empty)"

definition createRenderContext :: "context_store \<Rightarrow> nat \<times> context_store" where
  "createRenderContext store = (length store, store @ [Map.empty])"

text \<open>Modelled from the spec: \<open>RenderContextImpl.getContext\<close> (missing), the binding of the
  key in the context or the default of the key.\<close>

definition getContext :: "context_store \<Rightarrow> nat \<Rightarrow> Context \<Rightarrow> jsval" where
  "getContext store c ctx =
     (case bindings_of store c (context_symbol ctx) of
        None \<Rightarrow> context_default ctx
      | Some v \<Rightarrow> v)"

text \<open>Modelled from the spec: \<open>RenderContextImpl.setContext\<close> (missing), a new context with
  the bindings of the given one and the one binding overridden.\<close>

definition setContext :: "context_store \<Rightarrow> nat \<Rightarrow> Context \<Rightarrow> jsval \<Rightarrow> nat \<times> context_store" where
  "setContext store c ctx v =
     (length store, store @ [(bindings_of store c)(context_symbol ctx \<mapsto> v)])"

section \<open>Aborting a streaming leaf\<close>

text \<open>
  Modelled from the spec: the evaluator of render-impl.js is not part of the sources.
  By section 4.3 of the specification the evaluator of a leaf that is an asynchronous
  sequence pulls successive items, each pulled item replacing the current value; the
  end of the sequence completes the evaluator; under an aborted signal the evaluator
  pulls no further item and is force-completed with the last value seen (section 5),
  and frames already emitted stay. An evaluator is the sequence not yet pulled, the
  last value seen, the frames emitted, the number of pulls, and the two flags; its
  events are the evaluator's next turn and the firing of the abort signal.
\<close>

record leaf_evaluator =
  remaining :: "string list"
  current :: "string option"
  frames :: "string list"
  pulls :: nat
  aborted :: bool
  complete :: bool

datatype leaf_event = Advance | Abort

text \<open>Modelled from the spec: the evaluator (missing) as it is created for a sequence.\<close>

definition leaf_start :: "string list \<Rightarrow> leaf_evaluator" where
  "leaf_start items =
     \<lparr> remaining = items, current = None, frames = [], pulls = 0,
       aborted = False, complete = False \<rparr>"

text \<open>Modelled from the spec: one event of the evaluator (missing). The signal fires; or
  the evaluator takes its turn: nothing once complete, force-completion when aborted,
  completion at the end of the sequence, and one pull otherwise.\<close>

fun leaf_step :: "leaf_event \<Rightarrow> leaf_evaluator \<Rightarrow> leaf_evaluator" where
  "leaf_step Abort e = e\<lparr>aborted := True\<rparr>"
| "leaf_step Advance e =
     (if complete e then e
      else if aborted e then e\<lparr>complete := True\<rparr>
      else (case remaining e of
              [] \<Rightarrow> e\<lparr>complete := True\<rparr>
            | item # rest \<Rightarrow>
                e\<lparr>remaining := rest, current := Some item,
                  frames := frames e @ [item], pulls := Suc (pulls e)\<rparr>))"

text \<open>Modelled from the spec: the evaluator (missing) after a sequence of events.\<close>

definition leaf_run :: "leaf_event list \<Rightarrow> leaf_evaluator \<Rightarrow> leaf_evaluator" where
  "leaf_run events e = fold leaf_step events e"

section \<open>A small render tree\<close>

text \<open>
  The tree \<open>a\<close> with the children \<open>"x"\<close> and \<open>b\<close>, and \<open>b\<close> with the child \<open>c\<close>, rendered under
  one context; the properties below are tried on it.
\<close>

definition context0 :: ComponentContext where
  "context0 = \<lparr> context_ref = 0, abortSignal = None \<rparr>"

definition element_c :: render_element where
  "element_c = RenderElementImpl 2 (Name ''c'') Map.empty context0 None [Text ''z'']"

definition element_b :: render_element where
  "element_b = RenderElementImpl 1 (Name ''b'') Map.empty context0 None [Object element_c, Text ''y'']"

definition element_a :: render_element where
  "element_a = RenderElementImpl 0 (Name ''a'') Map.empty context0 None [Text ''x'', Object element_b]"

text \<open>
  Two components, one returning its \<open>children\<close> prop and one that throws, and a \<open>render\<close>
  method that wraps every node into a new element without children.
\<close>

definition example_call :: "nat \<Rightarrow> component" where
  "example_call f props ctx s =
     (if f = 0
      then (Inr (Node (case props (Name ''children'') of None \<Rightarrow> Undefined | Some v \<Rightarrow> v)), s)
      else (Inl (Thrown (Str ''failed'')), s))"

definition example_render :: render_method where
  "example_render ctx v s =
     (RenderElementImpl s (Name ''rendered'') [Name ''of'' \<mapsto> v] ctx None [], Suc s)"

text \<open>
  A mixed stream of the fork with the symbol \<open>Unique 0\<close>: main-stream nodes and the
  rendered markers of the two forks \<open>Unique 1\<close> and \<open>Unique 2\<close>.
\<close>

definition marker :: "nat \<Rightarrow> symbol \<Rightarrow> bool \<Rightarrow> render_node list \<Rightarrow> render_node" where
  "marker n fork_id flag nodes =
     Object (RenderElementImpl n (Symbol (Unique 0)) [Symbol fork_id \<mapsto> Bool flag] context0 None nodes)"

definition mixed_stream :: "render_node list" where
  "mixed_stream =
     [Text ''main'',
      marker 10 (Unique 1) True [Text ''p1''],
      marker 11 (Unique 2) True [Text ''q1''],
      Object element_c,
      marker 12 (Unique 1) True [Text ''p2'', Text ''p3''],
      marker 13 (Unique 2) False [],
      marker 14 (Unique 2) True [Text ''q2''],
      marker 15 (Unique 1) False [],
      marker 16 (Unique 1) True [Text ''p4'']]"

text \<open>A context key with the default \<open>"d"\<close>.\<close>

definition key0 :: Context where
  "key0 = \<lparr> context_default = Str ''d'', context_symbol = Unique 0 \<rparr>"

text \<open>A replacer that marks every string and leaves every element as it is.\<close>

fun mark :: "render_node \<Rightarrow> render_node" where
  "mark (Text s) = Text (s @ ''!'')"
| "mark (Object e) = Object e"

section \<open>Lemmas on allocating maps and new elements\<close>

lemma fst_map_alloc_Cons:
  "fst (map_alloc f (x # xs) s) = fst (f x s) # fst (map_alloc f xs (snd (f x s)))"
  by (simp add: case_prod_unfold)

lemma map_alloc_pure: "map_alloc (pure_replacer g) xs s = (map g xs, s)"
  by (induction xs arbitrary: s) (simp_all add: pure_replacer_def)

lemma map_alloc_length: "length (fst (map_alloc f xs s)) = length xs"
  by (induction xs arbitrary: s) (simp_all add: fst_map_alloc_Cons del: map_alloc.simps(2))

lemma map_alloc_all2:
  "(\<And>x t. x \<in> set xs \<Longrightarrow> P x (fst (f x t))) \<Longrightarrow> list_all2 P xs (fst (map_alloc f xs s))"
  by (induction xs arbitrary: s) (simp_all add: fst_map_alloc_Cons del: map_alloc.simps(2))

lemma new_RenderElementImpl_fields:
  "oid (fst (new_RenderElementImpl ty attrs ctx sig gen s)) = s"
  "type (fst (new_RenderElementImpl ty attrs ctx sig gen s)) = ty"
  "attributes (fst (new_RenderElementImpl ty attrs ctx sig gen s)) = attrs"
  "renderContext (fst (new_RenderElementImpl ty attrs ctx sig gen s)) = ctx"
  "signal (fst (new_RenderElementImpl ty attrs ctx sig gen s)) = sig"
  "asyncChildNodes (fst (new_RenderElementImpl ty attrs ctx sig gen s)) = fst (gen (Suc s))"
  by (simp_all add: new_RenderElementImpl_def split: prod.splits)

section \<open>Lemmas on invoking an element\<close>

lemma invoke_component:
  "invoke call render (createElement (Component f) props children) ctx s
     = call f (propsToPass props children) ctx s"
  by (simp add: invoke_def createElement_def)

lemma invoke_intrinsic:
  "invoke call render (createElement (Intrinsic t) props children) ctx s
     = (Inr (Node (Rendered (RenderElementImpl (snd (map_alloc (render ctx) (flat children) s)) t
                     (propsToPass props children) ctx (abortSignal ctx)
                     (map Object (fst (map_alloc (render ctx) (flat children) s)))))),
        Suc (snd (map_alloc (render ctx) (flat children) s)))"
  by (simp add: invoke_def createElement_def new_RenderElementImpl_def case_prod_unfold)

section \<open>Lemmas on the streams of a fork\<close>

lemma forked_stream_payloads:
  "forked_stream fs i mixed =
     concat (map payload (filter (appended_to fs i) (takeWhile (\<lambda>n. \<not> closes fs i n) mixed)))"
proof (induction fs i mixed rule: forked_stream.induct)
  case (1 fs i)
  show ?case by simp
next
  case (2 fs i s rest)
  then show ?case by simp
next
  case (3 fs i node rest)
  then show ?case
    by (cases "attributes node (Symbol i)") auto
qed

lemma main_stream_filter: "main_stream fs mixed = filter (\<lambda>n. \<not> tagged fs n) mixed"
  by (induction fs mixed rule: main_stream.induct) simp_all

lemma forked_stream_skip:
  "\<not> appended_to fs i n \<Longrightarrow> \<not> closes fs i n \<Longrightarrow>
     forked_stream fs i (xs @ n # ys) = forked_stream fs i (xs @ ys)"
proof (induction fs i xs rule: forked_stream.induct)
  case (1 fs i)
  then show ?case
    by (cases n) (auto split: option.splits)
next
  case (2 fs i s rest)
  then show ?case by simp
next
  case (3 fs i node rest)
  then show ?case
    by (cases "attributes node (Symbol i)") auto
qed

lemma untagged_invisible:
  "\<not> tagged fs n \<Longrightarrow> \<not> appended_to fs i n \<and> \<not> closes fs i n"
  by (cases n) simp_all

lemma append_marker:
  assumes "invoke call render (fork_append fs j v) ctx s = (Inr (Node (Rendered m)), s')"
  shows "appended_to fs j (Object m)
    \<and> payload (Object m) = map Object (fst (map_alloc (render ctx) (flat [v]) s))
    \<and> (i \<noteq> j \<longrightarrow> \<not> appended_to fs i (Object m) \<and> \<not> closes fs i (Object m))"
  using assms
  by (auto simp: fork_append_def invoke_def createElement_def propsToPass_def
      new_RenderElementImpl_def case_prod_unfold map_add_def)

lemma close_marker:
  assumes "invoke call render (fork_close fs j) ctx s = (Inr (Node (Rendered m)), s')"
  shows "closes fs j (Object m)
    \<and> (i \<noteq> j \<longrightarrow> \<not> appended_to fs i (Object m) \<and> \<not> closes fs i (Object m))"
  using assms
  by (auto simp: fork_close_def invoke_def createElement_def propsToPass_def
      new_RenderElementImpl_def case_prod_unfold map_add_def)

section \<open>Lemmas on the evaluator of a streaming leaf\<close>

lemma leaf_run_Nil: "leaf_run [] e = e"
  by (simp add: leaf_run_def)

lemma leaf_run_Cons: "leaf_run (ev # events) e = leaf_run events (leaf_step ev e)"
  by (simp add: leaf_run_def)

lemma leaf_run_append: "leaf_run (xs @ ys) e = leaf_run ys (leaf_run xs e)"
  by (simp add: leaf_run_def)

lemma leaf_run_pulls:
  "\<not> complete e \<Longrightarrow> \<not> aborted e \<Longrightarrow> k \<le> length (remaining e) \<Longrightarrow>
     leaf_run (replicate k Advance) e =
       e\<lparr>remaining := drop k (remaining e),
         current := (if k = 0 then current e else Some (remaining e ! (k - 1))),
         frames := frames e @ take k (remaining e),
         pulls := pulls e + k\<rparr>"
proof (induction k arbitrary: e)
  case 0
  show ?case by (simp add: leaf_run_def)
next
  case (Suc k)
  then obtain item rest where r: "remaining e = item # rest"
    by (cases "remaining e") auto
  let ?e = "e\<lparr>remaining := rest, current := Some item,
                  frames := frames e @ [item], pulls := Suc (pulls e)\<rparr>"
  have step: "leaf_step Advance e = ?e"
    using Suc.prems r by simp
  have "leaf_run (replicate k Advance) ?e =
       ?e\<lparr>remaining := drop k (remaining ?e),
         current := (if k = 0 then current ?e else Some (remaining ?e ! (k - 1))),
         frames := frames ?e @ take k (remaining ?e),
         pulls := pulls ?e + k\<rparr>"
    using Suc.prems r by (intro Suc.IH) simp_all
  then show ?case
    using r by (cases k) (simp_all add: leaf_run_Nil leaf_run_Cons step del: leaf_step.simps)
qed

lemma leaf_run_aborted:
  "aborted e \<Longrightarrow>
     remaining (leaf_run events e) = remaining e \<and> current (leaf_run events e) = current e
     \<and> frames (leaf_run events e) = frames e \<and> pulls (leaf_run events e) = pulls e
     \<and> aborted (leaf_run events e)"
proof (induction events arbitrary: e)
  case Nil
  then show ?case by (simp add: leaf_run_def)
next
  case (Cons ev events)
  have "aborted (leaf_step ev e)" using Cons.prems by (cases ev) simp_all
  from Cons.IH [OF this] show ?case
    using Cons.prems by (cases ev) (simp_all add: leaf_run_Cons)
qed

lemma leaf_run_complete: "complete e \<Longrightarrow> complete (leaf_run events e)"
proof (induction events arbitrary: e)
  case Nil
  then show ?case by (simp add: leaf_run_def)
next
  case (Cons ev events)
  have "complete (leaf_step ev e)" using Cons.prems by (cases ev) simp_all
  from Cons.IH [OF this] show ?case by (simp add: leaf_run_Cons)
qed

lemma leaf_run_force_complete:
  "aborted e \<Longrightarrow> Advance \<in> set events \<Longrightarrow> complete (leaf_run events e)"
proof (induction events arbitrary: e)
  case Nil
  then show ?case by simp
next
  case (Cons ev events)
  show ?case
  proof (cases ev)
    case Advance
    then have "complete (leaf_step ev e)" using Cons.prems by simp
    then show ?thesis by (simp add: leaf_run_Cons leaf_run_complete)
  next
    case Abort
    then have "aborted (leaf_step ev e)" "Advance \<in> set events"
      using Cons.prems by simp_all
    then show ?thesis by (simp add: leaf_run_Cons Cons.IH)
  qed
qed

section \<open>Properties of logException\<close>

text \<open>
  C9. A call of \<open>logException\<close> is exactly one call of the implementation's \<open>log\<close>: at
  level \<open>warn\<close> when \<open>bubbling\<close> is true and at level \<open>error\<close> when it is false, in both
  cases with the component, the props, the render id, the error object and the error's
  message. With the console implementation the call adds exactly one entry to the
  console, under the method of that level, with the error's message as its text, for
  the same component, props and render id, and with the error object as metadata
  whenever the message is not empty.
\<close>

theorem logException_one_emission:
  "logException log component props renderId error True sink
     = log Warn component props renderId (Inl (ErrorObject error)) (Some (error_message error)) sink
   \<and> logException log component props renderId error False sink
     = log Error component props renderId (Inl (ErrorObject error)) (Some (error_message error)) sink
   \<and> length (logException ConsoleLogImplementation_log component props renderId error bubbling console)
     = Suc (length console)
   \<and> take (length console)
        (logException ConsoleLogImplementation_log component props renderId error bubbling console)
     = console
   \<and> console_method (last (logException ConsoleLogImplementation_log component props renderId error bubbling console))
     = (if bubbling then Warn else Error)
   \<and> console_component (last (logException ConsoleLogImplementation_log component props renderId error bubbling console))
     = component
   \<and> console_props (last (logException ConsoleLogImplementation_log component props renderId error bubbling console))
     = props
   \<and> console_renderId (last (logException ConsoleLogImplementation_log component props renderId error bubbling console))
     = renderId
   \<and> console_text (last (logException ConsoleLogImplementation_log component props renderId error bubbling console))
     = Inr (error_message error)
   \<and> console_metadata (last (logException ConsoleLogImplementation_log component props renderId error bubbling console))
     = (if error_message error = [] then None else Some (Inl (ErrorObject error)))"
  by (simp add: logException_def ConsoleLogImplementation_log_def)

section \<open>Properties of createElement\<close>

text \<open>
  C10, as the claim states it, fails: when no child is given, a \<open>children\<close> key that the
  props carry is copied into the merged record.
\<close>

theorem createElement_children_key_counterexample:
  "length ([] :: jsval list) = 0
   \<and> fn_props (createElement (Intrinsic (Name ''p'')) (Some [Name ''children'' \<mapsto> Str ''kept'']) [])
        (Name ''children'') = Some (Str ''kept'')"
  by (simp add: createElement_def propsToPass_def)

text \<open>
  C10, amended. The props of the element that \<open>createElement(tag, props, ...children)\<close>
  returns are the merged record: with no child it is the props record itself (empty for
  \<open>null\<close>), so it has a \<open>children\<close> key only when the props carry one; with exactly one
  child the value under \<open>children\<close> is that child; with two or more children it is the
  array of the children in call order; under every other key the record has what the
  props have.
\<close>

theorem createElement_props_shape:
  "fn_props (createElement tag props children) = propsToPass props children
   \<and> propsToPass props [] = (case props of None \<Rightarrow> Map.empty | Some p \<Rightarrow> p)
   \<and> propsToPass None [] (Name ''children'') = None
   \<and> propsToPass props [c] (Name ''children'') = Some c
   \<and> propsToPass props (c1 # c2 # cs) (Name ''children'') = Some (Arr (c1 # c2 # cs))
   \<and> (k \<noteq> Name ''children'' \<longrightarrow>
        propsToPass props children k = (case props of None \<Rightarrow> Map.empty | Some p \<Rightarrow> p) k)"
  by (simp add: createElement_def propsToPass_def map_add_def)

theorem createElement_props_shape_witness:
  "Name ''title'' \<noteq> Name ''children''
   \<and> propsToPass (Some [Name ''title'' \<mapsto> Str ''t'']) [Str ''a'', Str ''b''] (Name ''title'')
       = Some (Str ''t'')
   \<and> propsToPass (Some [Name ''title'' \<mapsto> Str ''t'']) [Str ''a'', Str ''b''] (Name ''children'')
       = Some (Arr [Str ''a'', Str ''b''])"
  using createElement_props_shape [of "Intrinsic (Name ''p'')" "Some [Name ''title'' \<mapsto> Str ''t'']"
      "[Str ''a'', Str ''b'']" "Str ''a''" "Str ''a''" "Str ''b''" "[]" "Name ''title''"]
  by simp

text \<open>
  C1. \<open>createElement(tag, props, ...children)\<close> returns an element (the function has no
  failing branch) that carries the tag. Invoked with a component context, an element
  with a component tag returns exactly what the component returns for the merged props
  and that context; an element with an intrinsic tag returns a new render element of
  that tag, with the merged props as attributes, under that context and its abort
  signal, whose children are the results of \<open>ctx.render\<close> on the deeply flattened
  children, one for each and in order. An exception of the invocation is an exception
  of the component it delegates to.
\<close>

theorem createElement_invocation:
  "fn_tag (createElement tag props children) = tag
   \<and> invoke call render (createElement (Component f) props children) ctx s
       = call f (propsToPass props children) ctx s
   \<and> invoke call render (createElement (Intrinsic t) props children) ctx s
       = (Inr (Node (Rendered (RenderElementImpl (snd (map_alloc (render ctx) (flat children) s)) t
                     (propsToPass props children) ctx (abortSignal ctx)
                     (map Object (fst (map_alloc (render ctx) (flat children) s)))))),
          Suc (snd (map_alloc (render ctx) (flat children) s)))
   \<and> list_all2 (\<lambda>child r. \<exists>u. r = fst (render ctx child u))
        (flat children) (fst (map_alloc (render ctx) (flat children) s))
   \<and> (fst (invoke call render (createElement tag props children) ctx s) = Inl e \<longrightarrow>
        (\<exists>f. tag = Component f \<and> fst (call f (propsToPass props children) ctx s) = Inl e))"
proof -
  have "fst (invoke call render (createElement tag props children) ctx s) = Inl e \<longrightarrow>
        (\<exists>f. tag = Component f \<and> fst (call f (propsToPass props children) ctx s) = Inl e)"
    by (cases tag) (simp_all add: invoke_component invoke_intrinsic)
  moreover have "list_all2 (\<lambda>child r. \<exists>u. r = fst (render ctx child u))
        (flat children) (fst (map_alloc (render ctx) (flat children) s))"
    by (rule map_alloc_all2) (simp add: exI)
  moreover have "fn_tag (createElement tag props children) = tag"
    by (simp add: createElement_def)
  ultimately show ?thesis
    by (simp add: invoke_component invoke_intrinsic)
qed

theorem createElement_invocation_witness:
  "fst (invoke example_call example_render
          (createElement (Component 1) None [Str ''a'']) context0 5) = Inl (Thrown (Str ''failed''))
   \<and> invoke example_call example_render
          (createElement (Component 0) None [Str ''a'']) context0 5 = (Inr (Node (Str ''a'')), 5)
   \<and> invoke example_call example_render
          (createElement (Intrinsic (Name ''p'')) None [Str ''a'', Arr [Arr [Str ''b''], Null]]) context0 5
       = (Inr (Node (Rendered (RenderElementImpl 8 (Name ''p'')
                  [Name ''children'' \<mapsto> Arr [Str ''a'', Arr [Arr [Str ''b''], Null]]] context0 None
                  [Object (RenderElementImpl 5 (Name ''rendered'') [Name ''of'' \<mapsto> Str ''a''] context0 None []),
                   Object (RenderElementImpl 6 (Name ''rendered'') [Name ''of'' \<mapsto> Str ''b''] context0 None []),
                   Object (RenderElementImpl 7 (Name ''rendered'') [Name ''of'' \<mapsto> Null] context0 None [])]))),
          9)"
  using createElement_invocation [of "Component 1" None "[Str ''a'']" example_call example_render 1
      context0 5 "Name ''p''" "Thrown (Str ''failed'')"]
    createElement_invocation [of "Component 0" None "[Str ''a'']" example_call example_render 0
      context0 5 "Name ''p''" "Thrown (Str ''failed'')"]
    createElement_invocation [of "Intrinsic (Name ''p'')" None "[Str ''a'', Arr [Arr [Str ''b''], Null]]"
      example_call example_render 0 context0 5 "Name ''p''" "Thrown (Str ''failed'')"]
  by (simp add: example_call_def example_render_def propsToPass_def context0_def)

section \<open>Properties of traverse\<close>

text \<open>
  C5, as the claim states it, fails: with a \<open>yieldPost\<close> predicate that matches, the root
  is yielded a second time after the (empty) descent; and with a \<open>path\<close> in the options,
  the pair yielded carries that path, not the empty one.
\<close>

theorem traverse_post_visit_counterexample:
  "traverse element_a
     \<lparr> yield = Some (\<lambda>e. True), yieldPost = Some (\<lambda>e. True), descend = Some (\<lambda>e. False),
       path = None \<rparr>
   = [(element_a, []), (element_a, [])]
   \<and> traverse element_b
     \<lparr> yield = Some (\<lambda>e. True), yieldPost = None, descend = Some (\<lambda>e. False),
       path = Some [element_a] \<rparr>
   = [(element_b, [element_a])]"
  by (subst traverse.simps, simp add: optional_call_def path_or_empty_def)+

text \<open>
  C5, amended. When the \<open>descend\<close> predicate holds of no element (it is constantly false,
  or absent), \<open>traverse(r, options)\<close> yields the pair of \<open>r\<close> and \<open>options.path ?? []\<close> once
  if \<open>yield\<close> matches \<open>r\<close>, the same pair once more if \<open>yieldPost\<close> matches \<open>r\<close>, and nothing
  else, whatever the children of \<open>r\<close> are. With no \<open>yieldPost\<close> and no \<open>path\<close> in the
  options this is exactly the pair \<open>[r, []]\<close> when \<open>yield\<close> matches and nothing otherwise.
\<close>

theorem traverse_without_descent:
  assumes "\<And>e. \<not> optional_call (descend opts) e"
  shows "traverse r opts =
           (if optional_call (yield opts) r then [(r, path_or_empty opts)] else [])
           @ (if optional_call (yieldPost opts) r then [(r, path_or_empty opts)] else [])
         \<and> (yieldPost opts = None \<and> path opts = None \<longrightarrow>
              traverse r opts = (if optional_call (yield opts) r then [(r, [])] else []))"
proof -
  have eq: "traverse r opts =
           (if optional_call (yield opts) r then [(r, path_or_empty opts)] else [])
           @ (if optional_call (yieldPost opts) r then [(r, path_or_empty opts)] else [])"
    by (subst traverse.simps) (simp add: assms)
  have "optional_call None r = False"
    and "yieldPost opts = None \<Longrightarrow> path opts = None \<Longrightarrow> path_or_empty opts = []"
    by (simp_all add: optional_call_def path_or_empty_def)
  then show ?thesis using eq by simp
qed

theorem traverse_without_descent_witness:
  "traverse element_a
     \<lparr> yield = Some (\<lambda>e. True), yieldPost = None, descend = Some (\<lambda>e. False), path = None \<rparr>
   = [(element_a, [])]
   \<and> traverse element_a
     \<lparr> yield = Some (\<lambda>e. type e = Name ''b''), yieldPost = None, descend = Some (\<lambda>e. False),
       path = None \<rparr>
   = []"
  using traverse_without_descent [of
      "\<lparr> yield = Some (\<lambda>e. True), yieldPost = None, descend = Some (\<lambda>e. False), path = None \<rparr>"
      element_a]
    traverse_without_descent [of
      "\<lparr> yield = Some (\<lambda>e. type e = Name ''b''), yieldPost = None, descend = Some (\<lambda>e. False),
         path = None \<rparr>"
      element_a]
  by (simp add: optional_call_def path_or_empty_def element_a_def)

section \<open>Properties of replace and replaceSubtree\<close>

text \<open>
  C7. \<open>replace(r, f)\<close> returns a new render element (its identity is the next free one)
  with the type, the attributes, the render context and the abort signal of \<open>r\<close>. Its
  child stream is as long as that of \<open>r\<close>, and the node at every index is \<open>f\<close> applied to
  the node of \<open>r\<close> at that index; for a replacer \<open>g\<close> without effects the stream is the
  stream of \<open>r\<close> mapped by \<open>g\<close>, index by index.
\<close>

theorem replace_maps_child_stream:
  "type (fst (replace r f s)) = type r
   \<and> attributes (fst (replace r f s)) = attributes r
   \<and> renderContext (fst (replace r f s)) = renderContext r
   \<and> signal (fst (replace r f s)) = signal r
   \<and> oid (fst (replace r f s)) = s
   \<and> asyncChildNodes (fst (replace r (pure_replacer g) s)) = map g (asyncChildNodes r)
   \<and> (i < length (asyncChildNodes r) \<longrightarrow>
        asyncChildNodes (fst (replace r (pure_replacer g) s)) ! i = g (asyncChildNodes r ! i))
   \<and> list_all2 (\<lambda>node node'. \<exists>t. node' = fst (f node t))
        (asyncChildNodes r) (asyncChildNodes (fst (replace r f s)))"
  by (simp add: replace_def new_RenderElementImpl_fields map_alloc_pure map_alloc_all2 exI)

theorem replace_maps_child_stream_witness:
  "(1::nat) < length (asyncChildNodes element_b)
   \<and> asyncChildNodes (fst (replace element_b (pure_replacer mark) 3)) ! 1 = Text ''y!''
   \<and> asyncChildNodes (fst (replace element_b (pure_replacer mark) 3))
       = [Object element_c, Text ''y!'']
   \<and> type (fst (replace element_b (pure_replacer mark) 3)) = Name ''b''
   \<and> oid (fst (replace element_b (pure_replacer mark) 3)) = 3"
  using replace_maps_child_stream [of element_b "pure_replacer mark" 3 mark 1]
  by (simp add: element_b_def)

text \<open>
  C6. \<open>replaceSubtree(r, p, f)\<close> with the empty path is \<open>replace(r, f)\<close>; with a path it
  is \<open>r\<close> replaced along the path: the replacer is applied to the child stream of the
  node at the end of the path only, and at each level before the end every child that
  is not the next element of the path is the identical node in the output stream, while
  the stream keeps its length.
\<close>

theorem replaceSubtree_leaves_siblings:
  "replaceSubtree r [] f = replace r f
   \<and> replaced_along g r p (fst (replaceSubtree r p (pure_replacer g) s))
   \<and> list_all2 (\<lambda>node node'. \<not> same_object node head \<longrightarrow> node' = node)
        (asyncChildNodes r) (asyncChildNodes (fst (replaceSubtree r (head # tail) f s)))
   \<and> type (fst (replaceSubtree r p f s)) = type r
   \<and> attributes (fst (replaceSubtree r p f s)) = attributes r"
proof -
  have along: "replaced_along g r p (fst (replaceSubtree r p (pure_replacer g) s))"
  proof (induction p arbitrary: r s)
    case Nil
    show ?case
      by (simp add: replace_def new_RenderElementImpl_fields map_alloc_pure)
  next
    case (Cons head tail)
    have "list_all2 (\<lambda>node node'.
           if same_object node head
           then (case node' of Object e \<Rightarrow> replaced_along g head tail e | Text s \<Rightarrow> False)
           else node' = node)
         (asyncChildNodes r)
         (fst (map_alloc (\<lambda>node. if same_object node head
            then (\<lambda>s. case replaceSubtree head tail (pure_replacer g) s of (e, s1) \<Rightarrow> (Object e, s1))
            else Pair node) (asyncChildNodes r) (Suc s)))"
      by (rule map_alloc_all2) (simp add: case_prod_unfold Cons.IH)
    then show ?case
      by (simp add: replace_def new_RenderElementImpl_fields)
  qed
  have siblings: "list_all2 (\<lambda>node node'. \<not> same_object node head \<longrightarrow> node' = node)
        (asyncChildNodes r) (asyncChildNodes (fst (replaceSubtree r (head # tail) f s)))"
    by (simp add: replace_def new_RenderElementImpl_fields) (rule map_alloc_all2, simp)
  have fields: "type (fst (replaceSubtree r p f s)) = type r
      \<and> attributes (fst (replaceSubtree r p f s)) = attributes r"
    by (cases p) (simp_all add: replace_def new_RenderElementImpl_fields)
  show ?thesis using along siblings fields by simp
qed

theorem replaceSubtree_leaves_siblings_witness:
  "\<not> same_object (Text ''x'') element_b
   \<and> same_object (Object element_b) element_b
   \<and> asyncChildNodes (fst (replaceSubtree element_a [element_b] (pure_replacer mark) 3))
       = [Text ''x'',
          Object (RenderElementImpl 4 (Name ''b'') Map.empty context0 None
                    [Object element_c, Text ''y!''])]
   \<and> replaced_along mark element_a [element_b]
        (fst (replaceSubtree element_a [element_b] (pure_replacer mark) 3))"
  using replaceSubtree_leaves_siblings [of element_a "pure_replacer mark" mark "[element_b]" 3
      element_b "[]"]
  by (simp add: element_a_def element_b_def replace_def new_RenderElementImpl_def pure_replacer_def)

section \<open>Properties of fork\<close>

text \<open>
  C4. The stream of the fork with identifier \<open>i\<close> is, in order, the payloads of the nodes
  of the mixed stream that were appended with \<open>i\<close>, up to the first close marker of \<open>i\<close>;
  the main stream is the mixed stream without the nodes tagged with the fork symbol. A
  node that is neither an append nor a close marker of \<open>i\<close> can be taken out of the mixed
  stream without any change to the stream of \<open>i\<close>: such are all nodes without the tag
  and the rendered \<open>append\<close> and \<open>close\<close> elements of every other identifier, while the
  rendered \<open>append(v)\<close> of an identifier is an append marker of it whose payload is the
  rendering of \<open>v\<close>, and its rendered \<open>close()\<close> is a close marker of it. \<open>createNode\<close> makes
  the forked node over this stream, with the handles of a new identifier, and the
  generator that \<open>fork\<close> returns yields the main stream for a new fork symbol.
\<close>

theorem fork_demultiplexes:
  "forked_stream fs i mixed =
     concat (map payload (filter (appended_to fs i) (takeWhile (\<lambda>n. \<not> closes fs i n) mixed)))
   \<and> main_stream fs mixed = filter (\<lambda>n. \<not> tagged fs n) mixed
   \<and> (\<not> appended_to fs i n \<and> \<not> closes fs i n \<longrightarrow>
        forked_stream fs i (xs @ n # ys) = forked_stream fs i (xs @ ys))
   \<and> (\<not> tagged fs n \<longrightarrow> \<not> appended_to fs i n \<and> \<not> closes fs i n)
   \<and> (invoke call render (fork_append fs j v) ctx s = (Inr (Node (Rendered m)), s') \<longrightarrow>
        appended_to fs j (Object m)
        \<and> payload (Object m) = map Object (fst (map_alloc (render ctx) (flat [v]) s))
        \<and> (i \<noteq> j \<longrightarrow> \<not> appended_to fs i (Object m) \<and> \<not> closes fs i (Object m)))
   \<and> (invoke call render (fork_close fs j) ctx s = (Inr (Node (Rendered m)), s') \<longrightarrow>
        closes fs j (Object m)
        \<and> (i \<noteq> j \<longrightarrow> \<not> appended_to fs i (Object m) \<and> \<not> closes fs i (Object m)))
   \<and> asyncChildNodes (handle_node (fst (createNode fs ctx mixed s))) = forked_stream fs (Unique s) mixed
   \<and> handle_append (fst (createNode fs ctx mixed s)) = fork_append fs (Unique s)
   \<and> handle_close (fst (createNode fs ctx mixed s)) = fork_close fs (Unique s)
   \<and> snd (createNode fs ctx mixed s) = Suc (Suc s)
   \<and> fst (fork render_forkStream s)
       = filter (\<lambda>n. \<not> tagged (Unique s) n)
           (asyncChildNodes (fst (render_forkStream (Unique s) (Suc s))))"
proof -
  have main: "fst (fork render_forkStream s)
       = filter (\<lambda>n. \<not> tagged (Unique s) n)
           (asyncChildNodes (fst (render_forkStream (Unique s) (Suc s))))"
    by (simp add: fork_def new_Symbol_def case_prod_unfold main_stream_filter)
  have node: "asyncChildNodes (handle_node (fst (createNode fs ctx mixed s))) = forked_stream fs (Unique s) mixed
   \<and> handle_append (fst (createNode fs ctx mixed s)) = fork_append fs (Unique s)
   \<and> handle_close (fst (createNode fs ctx mixed s)) = fork_close fs (Unique s)
   \<and> snd (createNode fs ctx mixed s) = Suc (Suc s)"
    by (simp add: createNode_def new_Symbol_def new_RenderElementImpl_def)
  show ?thesis
    using forked_stream_payloads [of fs i mixed] main_stream_filter [of fs mixed]
      forked_stream_skip [of fs i n xs ys] untagged_invisible [of fs n i]
      append_marker [of call render fs j v ctx s m s' i]
      close_marker [of call render fs j ctx s m s' i] node main
    by blast
qed

theorem fork_demultiplexes_witness:
  "forked_stream (Unique 0) (Unique 1) mixed_stream = [Text ''p1'', Text ''p2'', Text ''p3'']
   \<and> forked_stream (Unique 0) (Unique 2) mixed_stream = [Text ''q1'']
   \<and> main_stream (Unique 0) mixed_stream = [Text ''main'', Object element_c]
   \<and> \<not> tagged (Unique 0) (Text ''main'')
   \<and> forked_stream (Unique 0) (Unique 1) ([] @ Text ''main'' # tl mixed_stream)
       = forked_stream (Unique 0) (Unique 1) ([] @ tl mixed_stream)
   \<and> invoke example_call example_render (fork_append (Unique 0) (Unique 2) (Str ''q'')) context0 20
       = (Inr (Node (Rendered (RenderElementImpl 21 (Symbol (Unique 0))
             [Symbol (Unique 2) \<mapsto> Bool True, Name ''children'' \<mapsto> Str ''q''] context0 None
             [Object (RenderElementImpl 20 (Name ''rendered'') [Name ''of'' \<mapsto> Str ''q''] context0 None [])]))), 22)
   \<and> Unique 1 \<noteq> Unique 2
   \<and> \<not> appended_to (Unique 0) (Unique 1) (Object (RenderElementImpl 21 (Symbol (Unique 0))
             [Symbol (Unique 2) \<mapsto> Bool True, Name ''children'' \<mapsto> Str ''q''] context0 None
             [Object (RenderElementImpl 20 (Name ''rendered'') [Name ''of'' \<mapsto> Str ''q''] context0 None [])]))
   \<and> invoke example_call example_render (fork_close (Unique 0) (Unique 2)) context0 20
       = (Inr (Node (Rendered (RenderElementImpl 20 (Symbol (Unique 0))
             [Symbol (Unique 2) \<mapsto> Bool False] context0 None []))), 21)
   \<and> closes (Unique 0) (Unique 2) (Object (RenderElementImpl 20 (Symbol (Unique 0))
             [Symbol (Unique 2) \<mapsto> Bool False] context0 None []))"
  using fork_demultiplexes [of "Unique 0" "Unique 1" mixed_stream "Text ''main''" "[]" "tl mixed_stream"
      example_call example_render "Unique 2" "Str ''q''" context0 20
      "RenderElementImpl 21 (Symbol (Unique 0))
             [Symbol (Unique 2) \<mapsto> Bool True, Name ''children'' \<mapsto> Str ''q''] context0 None
             [Object (RenderElementImpl 20 (Name ''rendered'') [Name ''of'' \<mapsto> Str ''q''] context0 None [])]"
      22]
    fork_demultiplexes [of "Unique 0" "Unique 2" mixed_stream "Text ''main''" "[]" "tl mixed_stream"
      example_call example_render "Unique 2" "Str ''q''" context0 20
      "RenderElementImpl 20 (Symbol (Unique 0)) [Symbol (Unique 2) \<mapsto> Bool False] context0 None []"
      21]
  by (simp add: mixed_stream_def marker_def element_c_def fork_append_def fork_close_def
      invoke_def createElement_def propsToPass_def new_RenderElementImpl_def example_render_def
      context0_def)

section \<open>Properties of render contexts\<close>

text \<open>
  C2. \<open>c.setContext(k, v)\<close> returns a new context, at an address no context had, in
  which \<open>k\<close> is bound to \<open>v\<close> and every other key reads as in \<open>c\<close>. Every context that
  existed before the call, \<open>c\<close> itself and each context derived earlier from it or
  beside it, returns for every key what it returned before the call, and the store of
  the earlier contexts is unchanged.
\<close>

theorem setContext_leaves_contexts_unchanged:
  "fst (setContext store c key v) = length store
   \<and> getContext (snd (setContext store c key v)) (fst (setContext store c key v)) key = v
   \<and> (\<forall>a < length store. \<forall>k. getContext (snd (setContext store c key v)) a k = getContext store a k)
   \<and> (\<forall>k. context_symbol k \<noteq> context_symbol key \<longrightarrow>
         getContext (snd (setContext store c key v)) (fst (setContext store c key v)) k
           = getContext store c k)
   \<and> take (length store) (snd (setContext store c key v)) = store"
  by (simp add: setContext_def getContext_def bindings_of_def nth_append)

theorem setContext_leaves_contexts_unchanged_witness:
  "(0::nat) < length [Map.empty, [Unique 0 \<mapsto> Str ''sibling'']]
   \<and> (1::nat) < length [Map.empty, [Unique 0 \<mapsto> Str ''sibling'']]
   \<and> setContext [Map.empty, [Unique 0 \<mapsto> Str ''sibling'']] 0 key0 (Str ''v'')
        = (2, [Map.empty, [Unique 0 \<mapsto> Str ''sibling''], [Unique 0 \<mapsto> Str ''v'']])
   \<and> getContext (snd (setContext [Map.empty, [Unique 0 \<mapsto> Str ''sibling'']] 0 key0 (Str ''v''))) 0 key0
        = Str ''d''
   \<and> getContext (snd (setContext [Map.empty, [Unique 0 \<mapsto> Str ''sibling'']] 0 key0 (Str ''v''))) 1 key0
        = Str ''sibling''
   \<and> getContext (snd (setContext [Map.empty, [Unique 0 \<mapsto> Str ''sibling'']] 0 key0 (Str ''v''))) 2 key0
        = Str ''v''"
  using setContext_leaves_contexts_unchanged [of "[Map.empty, [Unique 0 \<mapsto> Str ''sibling'']]" 0 key0 "Str ''v''"]
  by (simp add: setContext_def getContext_def bindings_of_def key0_def)

section \<open>Properties of aborting\<close>

text \<open>
  C8. When the abort signal fires after \<open>k\<close> items of a leaf's sequence have been
  pulled, then, whatever events follow, the frames emitted are the first \<open>k\<close> items, the
  last value seen is the \<open>k\<close>-th item, the number of pulls stays \<open>k\<close> and the rest of the
  sequence is never pulled; the evaluator is complete as soon as it takes its next
  turn. For the sequence \<open>"a"\<close>, \<open>"ab"\<close>, \<open>"abc"\<close> and an abort after \<open>"ab"\<close> the final state
  is \<open>"ab"\<close> and \<open>"abc"\<close> is never reached.
\<close>

theorem abort_stops_pulling:
  assumes "k \<le> length items"
  shows "frames (leaf_run (replicate k Advance @ Abort # events) (leaf_start items)) = take k items
    \<and> current (leaf_run (replicate k Advance @ Abort # events) (leaf_start items))
        = (if k = 0 then None else Some (items ! (k - 1)))
    \<and> pulls (leaf_run (replicate k Advance @ Abort # events) (leaf_start items)) = k
    \<and> remaining (leaf_run (replicate k Advance @ Abort # events) (leaf_start items)) = drop k items
    \<and> (Advance \<in> set events \<longrightarrow>
         complete (leaf_run (replicate k Advance @ Abort # events) (leaf_start items)))"
proof -
  let ?e = "leaf_run (replicate k Advance) (leaf_start items)"
  have e: "?e = (leaf_start items)\<lparr>remaining := drop k items,
         current := (if k = 0 then None else Some (items ! (k - 1))),
         frames := take k items, pulls := k\<rparr>"
    using assms leaf_run_pulls [of "leaf_start items" k] by (simp add: leaf_start_def)
  have a: "aborted (leaf_step Abort ?e)" by simp
  have run: "leaf_run (replicate k Advance @ Abort # events) (leaf_start items)
      = leaf_run events (leaf_step Abort ?e)"
    by (simp add: leaf_run_append leaf_run_Cons)
  show ?thesis
    unfolding run using leaf_run_aborted [OF a, of events] leaf_run_force_complete [OF a, of events]
    by (simp add: e)
qed

theorem abort_stops_pulling_witness:
  "(2::nat) \<le> length [''a'', ''ab'', ''abc'']
   \<and> Advance \<in> set [Advance, Advance]
   \<and> leaf_run [Advance, Advance, Abort, Advance, Advance] (leaf_start [''a'', ''ab'', ''abc''])
      = \<lparr> remaining = [''abc''], current = Some ''ab'', frames = [''a'', ''ab''], pulls = 2,
          aborted = True, complete = True \<rparr>"
  using abort_stops_pulling [of 2 "[''a'', ''ab'', ''abc'']" "[Advance, Advance]"]
  by (simp add: leaf_run_def leaf_start_def)

end
